theory Spec2Isabelle
  imports Complex_Main
begin

section \<open>Global state of the wearable transcription service (main.cpp)\<close>

text \<open>
  The module-level variables of main.cpp: the run flag, the low-power flag, the
  current transcription and the transcription history. The mutex \<open>g_text_mutex\<close>
  makes every block that holds it one atomic step on this record, so each such block
  is one function below.
\<close>

record globals =
  g_running :: bool
  g_low_power_mode :: bool
  g_current_transcription :: string
  g_transcription_history :: "string list"

definition initial_globals :: globals where
  "initial_globals =
     \<lparr>g_running = True, g_low_power_mode = False,
      g_current_transcription = [], g_transcription_history = []\<rparr>"

text \<open>\<open>signalHandler\<close>: the only writer of the run flag.\<close>

definition signalHandler :: "globals \<Rightarrow> globals" where
  "signalHandler g = g\<lparr>g_running := False\<rparr>"

subsection \<open>audioProcessingThread\<close>

text \<open>
  The block under the lock in \<open>audioProcessingThread\<close>: assign the current text,
  \<open>push_back\<close>, then erase the first element when the size has exceeded 100.
\<close>

definition update_transcription :: "string \<Rightarrow> globals \<Rightarrow> globals" where
  "update_transcription text g =
     (let g1 = g\<lparr>g_current_transcription := text\<rparr>;
          g2 = g1\<lparr>g_transcription_history := g_transcription_history g1 @ [text]\<rparr>
      in if length (g_transcription_history g2) > 100
         then g2\<lparr>g_transcription_history := tl (g_transcription_history g2)\<rparr>
         else g2)"

text \<open>
  One iteration of the loop body after \<open>stt.transcribe\<close> has returned \<open>text\<close>.
  \<open>detectKeywords\<close> is the keyword collaborator; the second component of the state
  counts the calls of \<open>haptic.triggerVibration\<close>.
\<close>

definition audio_iteration :: "(string \<Rightarrow> bool) \<Rightarrow> string \<Rightarrow> globals \<times> nat \<Rightarrow> globals \<times> nat" where
  "audio_iteration detectKeywords text s =
     (if text \<noteq> []
      then (update_transcription text (fst s),
            if detectKeywords text then Suc (snd s) else snd s)
      else s)"

text \<open>
  The thread over a finite trace of transcription results: the flag is polled before
  each iteration.
\<close>

fun audioProcessingThread :: "(string \<Rightarrow> bool) \<Rightarrow> string list \<Rightarrow> globals \<times> nat \<Rightarrow> globals \<times> nat" where
  "audioProcessingThread detectKeywords [] s = s"
| "audioProcessingThread detectKeywords (text # rest) s =
     (if g_running (fst s)
      then audioProcessingThread detectKeywords rest (audio_iteration detectKeywords text s)
      else s)"

section \<open>SpeechToText (speech_to_text.cpp)\<close>

datatype Engine = WHISPER | VOSK | DEEPSPEECH

text \<open>
  The object: \<open>engine_handle\<close> is the opaque pointer, \<open>None\<close> for \<open>nullptr\<close>.
\<close>

record SpeechToText =
  engine :: Engine
  language :: string
  engine_handle :: "nat option"

text \<open>
  \<open>std::tolower\<close> on an \<open>unsigned char\<close> in the "C" locale (the program never
  calls \<open>setlocale\<close>): the 26 upper-case ASCII letters move by 32, every other byte
  is kept.
\<close>

definition ascii_upper :: "char \<Rightarrow> bool" where
  "ascii_upper c = (65 \<le> (of_char c :: nat) \<and> (of_char c :: nat) \<le> 90)"

definition tolower :: "char \<Rightarrow> char" where
  "tolower c = (if ascii_upper c then char_of (of_char c + 32 :: nat) else c)"

text \<open>
  \<open>SpeechToText::setEngine\<close>. The second component is what the call writes to
  \<open>std::cerr\<close>.
\<close>

definition setEngine :: "string \<Rightarrow> SpeechToText \<Rightarrow> SpeechToText \<times> string list" where
  "setEngine engine_name stt =
     (let name_lower = map tolower engine_name
      in if name_lower = ''whisper'' then (stt\<lparr>engine := WHISPER\<rparr>, [])
         else if name_lower = ''vosk'' then (stt\<lparr>engine := VOSK\<rparr>, [])
         else if name_lower = ''deepspeech'' then (stt\<lparr>engine := DEEPSPEECH\<rparr>, [])
         else (stt\<lparr>engine := WHISPER\<rparr>,
               [''Unknown engine: '' @ engine_name @ ''. Defaulting to Whisper.'']))"

text \<open>
  Case-insensitive equality of two strings, stated without \<open>tolower\<close>: the strings
  have the same length and agree position by position up to the case of an ASCII
  letter.
\<close>

definition ascii_lower :: "char \<Rightarrow> bool" where
  "ascii_lower c = (97 \<le> (of_char c :: nat) \<and> (of_char c :: nat) \<le> 122)"

definition same_letter :: "char \<Rightarrow> char \<Rightarrow> bool" where
  "same_letter c d =
     (c = d \<or> (ascii_upper c \<and> (of_char d :: nat) = of_char c + 32)
            \<or> (ascii_upper d \<and> (of_char c :: nat) = of_char d + 32))"

definition equal_ignoring_case :: "string \<Rightarrow> string \<Rightarrow> bool" where
  "equal_ignoring_case a b = list_all2 same_letter a b"

text \<open>
  \<open>cleanupEngine\<close> and \<open>initializeEngine\<close>. The argument \<open>whisper_init\<close> is what
  \<open>whisper_init_from_file\<close> returns for the model file: a context, or \<open>None\<close> for a
  null pointer.
\<close>

definition cleanupEngine :: "SpeechToText \<Rightarrow> SpeechToText" where
  "cleanupEngine stt =
     (if engine_handle stt \<noteq> None then stt\<lparr>engine_handle := None\<rparr> else stt)"

definition initializeEngine :: "nat option \<Rightarrow> SpeechToText \<Rightarrow> bool \<times> SpeechToText" where
  "initializeEngine whisper_init stt =
     (let s = cleanupEngine stt
      in case engine s of
           WHISPER \<Rightarrow>
             (case whisper_init of
                None \<Rightarrow> (False, s)
              | Some ctx \<Rightarrow> (True, s\<lparr>engine_handle := Some ctx\<rparr>))
         | VOSK \<Rightarrow> (True, s)
         | DEEPSPEECH \<Rightarrow> (True, s))"

text \<open>
  Exceptions derived from \<open>std::exception\<close>, with their message. The constructor
  throws when the engine does not initialise. The \<open>engine\<close> field is not initialised
  by the member initialiser list; \<open>setEngine\<close> assigns it in every branch before it is
  read, so the value given here is never observed.
\<close>

datatype exception = runtime_error string

definition SpeechToText_ctor :: "string \<Rightarrow> nat option \<Rightarrow> exception + SpeechToText" where
  "SpeechToText_ctor engine_name whisper_init =
     (let s0 = \<lparr>engine = WHISPER, language = ''en'', engine_handle = None\<rparr>;
          s1 = fst (setEngine engine_name s0);
          r = initializeEngine whisper_init s1
      in if \<not> fst r
         then Inl (runtime_error ''Failed to initialize speech-to-text engine'')
         else Inr (snd r))"

text \<open>
  The Whisper library on one audio buffer: the return code of \<open>whisper_full\<close> and the
  texts of the segments it found (\<open>whisper_full_n_segments\<close> of them).
\<close>

record whisper_run =
  whisper_full_rc :: int
  segment_texts :: "string list"

definition transcribeWithWhisper :: "SpeechToText \<Rightarrow> whisper_run \<Rightarrow> string" where
  "transcribeWithWhisper stt w =
     (if engine_handle stt = None then ''Whisper model not initialized''
      else if whisper_full_rc w \<noteq> 0 then ''Failed to run Whisper inference''
      else concat (map (\<lambda>seg. seg @ '' '') (segment_texts w)))"

definition transcribeWithVosk :: "SpeechToText \<Rightarrow> string" where
  "transcribeWithVosk stt = ''Vosk transcription not implemented''"

definition transcribeWithDeepSpeech :: "SpeechToText \<Rightarrow> string" where
  "transcribeWithDeepSpeech stt = ''DeepSpeech transcription not implemented''"

definition transcribe :: "SpeechToText \<Rightarrow> whisper_run \<Rightarrow> string" where
  "transcribe stt w =
     (case engine stt of
        WHISPER \<Rightarrow> transcribeWithWhisper stt w
      | VOSK \<Rightarrow> transcribeWithVosk stt
      | DEEPSPEECH \<Rightarrow> transcribeWithDeepSpeech stt)"

text \<open>
  The whole body of the loop of \<open>audioProcessingThread\<close>: transcribe the captured and
  filtered buffer, then the step on the shared state.
\<close>

definition audio_loop_body ::
  "SpeechToText \<Rightarrow> (string \<Rightarrow> bool) \<Rightarrow> whisper_run \<Rightarrow> globals \<times> nat \<Rightarrow> globals \<times> nat" where
  "audio_loop_body stt detectKeywords w s =
     audio_iteration detectKeywords (transcribe stt w) s"

section \<open>Display: text wrapping (display.cpp)\<close>

text \<open>
  \<open>iss >> word\<close> skips white space and reads up to the next white-space character;
  the stream's locale is the classic one, whose white space is the blank and the
  bytes 9 to 13. \<open>extract_words\<close> is the sequence of words these reads deliver, its
  first argument the word being read.
\<close>

definition isspace :: "char \<Rightarrow> bool" where
  "isspace c =
     ((of_char c :: nat) = 32 \<or> (9 \<le> (of_char c :: nat) \<and> (of_char c :: nat) \<le> 13))"

fun extract_words :: "string \<Rightarrow> string \<Rightarrow> string list" where
  "extract_words word [] = (if word = [] then [] else [word])"
| "extract_words word (c # cs) =
     (if isspace c
      then (if word = [] then extract_words [] cs else word # extract_words [] cs)
      else extract_words (word @ [c]) cs)"

text \<open>
  The \<open>while\<close> loop of \<open>Display::wrapText\<close> over the words, on the pair of
  \<open>current_line\<close> and \<open>lines\<close>; \<open>chars_per_line\<close> is 21.
\<close>

definition chars_per_line :: nat where
  "chars_per_line = 21"

fun wrap_words :: "string list \<Rightarrow> string \<times> string list \<Rightarrow> string \<times> string list" where
  "wrap_words [] (current_line, lines) = (current_line, lines)"
| "wrap_words (word # rest) (current_line, lines) =
     (if current_line = [] then wrap_words rest (word, lines)
      else if length current_line + length word + 1 \<le> chars_per_line
      then wrap_words rest (current_line @ '' '' @ word, lines)
      else wrap_words rest (word, lines @ [current_line]))"

text \<open>
  \<open>Display::wrapText\<close>: \<open>lines\<close> is the caller's vector, which the function extends
  and then cuts to 8 entries. \<open>showText\<close> passes an empty vector.
\<close>

definition wrapText :: "string \<Rightarrow> string list \<Rightarrow> string list" where
  "wrapText text lines =
     (let r = wrap_words (extract_words [] text) ([], lines);
          lines1 = (if fst r \<noteq> [] then snd r @ [fst r] else snd r)
      in if length lines1 > 8 then take 8 lines1 else lines1)"

definition showText_lines :: "string \<Rightarrow> string list" where
  "showText_lines text = wrapText text []"

section \<open>Durable store, storage thread and connectivity thread (main.cpp)\<close>

text \<open>
  Modelled from the spec: \<open>StorageManager\<close> (storage_manager.h is not among the
  sources). The durable store is the sequence of saved records, each with the
  per-record flag "synced to long-range backup", cleared at creation.
  \<open>saveTranscription\<close> appends one record, \<open>getUnsyncedTranscriptions\<close> returns the
  records whose flag is clear, and \<open>markTranscriptionsAsSynced\<close>, which takes no
  argument, sets the flag of every record.
\<close>

record stored_record =
  rec_timestamp :: string
  rec_text :: string
  rec_synced :: bool

definition saveTranscription :: "string \<Rightarrow> string \<Rightarrow> stored_record list \<Rightarrow> stored_record list" where
  "saveTranscription timestamp text store =
     store @ [\<lparr>rec_timestamp = timestamp, rec_text = text, rec_synced = False\<rparr>]"

definition getUnsyncedTranscriptions :: "stored_record list \<Rightarrow> stored_record list" where
  "getUnsyncedTranscriptions store = filter (\<lambda>r. \<not> rec_synced r) store"

definition markTranscriptionsAsSynced :: "stored_record list \<Rightarrow> stored_record list" where
  "markTranscriptionsAsSynced store = map (\<lambda>r. r\<lparr>rec_synced := True\<rparr>) store"

subsection \<open>storageThread\<close>

text \<open>
  The \<open>for\<close> loop of \<open>storageThread\<close>, from index \<open>i\<close> up to the size of the snapshot.
  \<open>getCurrentTimestamp\<close> reads the wall clock at each save; here it is a function of
  the index of the record being saved.
\<close>

function save_from ::
  "(nat \<Rightarrow> string) \<Rightarrow> string list \<Rightarrow> nat \<Rightarrow> stored_record list \<Rightarrow> stored_record list" where
  "save_from getCurrentTimestamp current_transcriptions i store =
     (if i < length current_transcriptions
      then save_from getCurrentTimestamp current_transcriptions (Suc i)
             (saveTranscription (getCurrentTimestamp i) (current_transcriptions ! i) store)
      else store)"
  by pat_completeness auto
termination
  by (relation "measure (\<lambda>(t, c, i, s). length c - i)") auto

text \<open>
  One iteration of the loop of \<open>storageThread\<close>: the snapshot of the history under
  the lock, the comparison of the two sizes, the saves, and the new value of the
  local \<open>last_saved_transcriptions\<close>. The state is that local and the store.
\<close>

definition storage_iteration ::
  "(nat \<Rightarrow> string) \<Rightarrow> globals \<Rightarrow> string list \<times> stored_record list
     \<Rightarrow> string list \<times> stored_record list" where
  "storage_iteration getCurrentTimestamp g s =
     (let current_transcriptions = g_transcription_history g;
          last_saved_transcriptions = fst s
      in if length current_transcriptions > length last_saved_transcriptions
         then (current_transcriptions,
               save_from getCurrentTimestamp current_transcriptions
                 (length last_saved_transcriptions) (snd s))
         else s)"

subsection \<open>connectivityThread\<close>

text \<open>
  Modelled from the spec: \<open>BluetoothManager\<close> and \<open>WiFiManager\<close> (their headers are
  not among the sources). What the links report in one cycle is \<open>link_status\<close>;
  \<open>wifi_delivered\<close> is the number of records of the batch that the long-range
  transport gets through before the upload ends, so an upload succeeds for the whole
  batch exactly when it is at least the size of the batch. \<open>backupTranscriptions\<close>
  adds the delivered records to what the backup holds; the call site does not look at
  any result of it.
\<close>

record link_status =
  bt_connected :: bool
  wifi_enabled :: bool
  wifi_connected :: bool
  wifi_delivered :: nat

record connectivity_state =
  store :: "stored_record list"
  backed_up :: "stored_record list"
  bt_synced :: "string list list"

definition backupTranscriptions :: "nat \<Rightarrow> stored_record list \<Rightarrow> stored_record list \<Rightarrow> stored_record list" where
  "backupTranscriptions delivered batch backup = backup @ take delivered batch"

text \<open>One iteration of the loop of \<open>connectivityThread\<close>.\<close>

definition connectivity_iteration ::
  "link_status \<Rightarrow> globals \<Rightarrow> connectivity_state \<Rightarrow> connectivity_state" where
  "connectivity_iteration l g c =
     (let c1 = (if bt_connected l
                then c\<lparr>bt_synced := bt_synced c @ [g_transcription_history g]\<rparr>
                else c)
      in if wifi_enabled l \<and> wifi_connected l
         then c1\<lparr>backed_up :=
                    backupTranscriptions (wifi_delivered l)
                      (getUnsyncedTranscriptions (store c1)) (backed_up c1),
                  store := markTranscriptionsAsSynced (store c1)\<rparr>
         else c1)"

text \<open>The sleep at the end of the iteration, in seconds.\<close>

definition connectivity_sleep_seconds :: "globals \<Rightarrow> nat" where
  "connectivity_sleep_seconds g = (if g_low_power_mode g then 300 else 60)"

section \<open>Power management thread (main.cpp)\<close>

text \<open>
  \<open>battery_level\<close> is a \<open>float\<close>, an IEEE binary32 value: a finite value is
  \<open>m * 2^e\<close> with a significand of at most 24 bits and an exponent between -149 and
  104, and there are the two infinities and NaN.
\<close>

datatype float32 = Finite int int | Infinity bool | NaN

fun valid_float32 :: "float32 \<Rightarrow> bool" where
  "valid_float32 (Finite m e) = (\<bar>m\<bar> < 2 ^ 24 \<and> - 149 \<le> e \<and> e \<le> 104)"
| "valid_float32 (Infinity negative) = True"
| "valid_float32 NaN = True"

definition float_value :: "int \<Rightarrow> int \<Rightarrow> real" where
  "float_value m e =
     (if 0 \<le> e then of_int m * 2 ^ nat e else of_int m / 2 ^ nat (- e))"

text \<open>
  The comparisons \<open>battery_level < d\<close> and \<open>battery_level > d\<close> with a \<open>double\<close>:
  the float is converted to \<open>double\<close>, which keeps its value, and the comparison is
  exact. A comparison with NaN is false.
\<close>

fun float_less :: "float32 \<Rightarrow> real \<Rightarrow> bool" where
  "float_less (Finite m e) d = (float_value m e < d)"
| "float_less (Infinity negative) d = negative"
| "float_less NaN d = False"

fun float_greater :: "float32 \<Rightarrow> real \<Rightarrow> bool" where
  "float_greater (Finite m e) d = (float_value m e > d)"
| "float_greater (Infinity negative) d = (\<not> negative)"
| "float_greater NaN d = False"

text \<open>
  The literals \<open>0.2\<close> and \<open>0.3\<close> are of type \<open>double\<close>: the binary64 values nearest
  to one fifth and to three tenths.
\<close>

definition double_0_2 :: real where
  "double_0_2 = 3602879701896397 / 2 ^ 54"

definition double_0_3 :: real where
  "double_0_3 = 5404319552844595 / 2 ^ 54"

text \<open>
  One iteration of the loop of \<open>powerManagementThread\<close> on the battery level that
  \<open>power.getBatteryLevel\<close> returned. The second component of the state is the
  sequence of modes passed to \<open>power.updatePowerMode\<close>.
\<close>

definition power_iteration :: "float32 \<Rightarrow> globals \<times> bool list \<Rightarrow> globals \<times> bool list" where
  "power_iteration battery_level s =
     (let g = fst s;
          g1 = (if float_less battery_level double_0_2 then g\<lparr>g_low_power_mode := True\<rparr>
                else if float_greater battery_level double_0_3
                then g\<lparr>g_low_power_mode := False\<rparr>
                else g)
      in (g1, snd s @ [g_low_power_mode g1]))"

fun powerManagementThread :: "float32 list \<Rightarrow> globals \<times> bool list \<Rightarrow> globals \<times> bool list" where
  "powerManagementThread [] s = s"
| "powerManagementThread (battery_level # rest) s =
     (if g_running (fst s)
      then powerManagementThread rest (power_iteration battery_level s)
      else s)"

section \<open>Startup and shutdown (main)\<close>

text \<open>
  The constructors that \<open>main\<close> runs inside its \<open>try\<close> block. \<open>AudioCapture\<close> and
  \<open>Display\<close> throw when \<open>initializeALSA\<close> or \<open>initializeI2C\<close> returns false.
\<close>

definition AudioCapture_ctor :: "bool \<Rightarrow> exception + unit" where
  "AudioCapture_ctor initializeALSA =
     (if \<not> initializeALSA then Inl (runtime_error ''Failed to initialize ALSA audio capture'')
      else Inr ())"

definition Display_ctor :: "bool \<Rightarrow> exception + unit" where
  "Display_ctor initializeI2C =
     (if \<not> initializeI2C then Inl (runtime_error ''Failed to initialize I2C for display'')
      else Inr ())"

text \<open>
  Modelled from the spec: the constructors of \<open>HapticFeedback\<close>, \<open>PowerManager\<close>,
  \<open>BluetoothManager\<close>, \<open>WiFiManager\<close>, \<open>NoiseReduction\<close>, \<open>KeywordDetector\<close> and
  \<open>StorageManager\<close> (their definitions are not among the sources). A collaborator
  that fails to initialise aborts startup: its constructor throws an exception
  derived from \<open>std::exception\<close>, as the three constructors above do.
\<close>

definition other_ctor :: "string \<Rightarrow> bool \<Rightarrow> exception + unit" where
  "other_ctor name initialized =
     (if \<not> initialized then Inl (runtime_error name) else Inr ())"

text \<open>What the hardware and the model file do at startup.\<close>

record startup =
  alsa_ok :: bool
  i2c_ok :: bool
  haptic_ok :: bool
  power_ok :: bool
  bluetooth_ok :: bool
  wifi_ok :: bool
  noise_ok :: bool
  whisper_model :: "nat option"
  keyword_ok :: bool
  storage_ok :: bool

definition and_then :: "exception + 'a \<Rightarrow> exception + 'b \<Rightarrow> exception + 'b" where
  "and_then first next = (case first of Inl e \<Rightarrow> Inl e | Inr x \<Rightarrow> next)"

text \<open>The declarations of the \<open>try\<close> block, in their order; the first throw ends them.\<close>

definition construct_collaborators :: "startup \<Rightarrow> exception + SpeechToText" where
  "construct_collaborators env =
     and_then (AudioCapture_ctor (alsa_ok env))
    (and_then (Display_ctor (i2c_ok env))
    (and_then (other_ctor ''HapticFeedback'' (haptic_ok env))
    (and_then (other_ctor ''PowerManager'' (power_ok env))
    (and_then (other_ctor ''BluetoothManager'' (bluetooth_ok env))
    (and_then (other_ctor ''WiFiManager'' (wifi_ok env))
    (and_then (other_ctor ''NoiseReduction'' (noise_ok env))
    (case SpeechToText_ctor ''whisper'' (whisper_model env) of
       Inl e \<Rightarrow> Inl e
     | Inr stt \<Rightarrow>
         and_then (other_ctor ''KeywordDetector'' (keyword_ok env))
        (and_then (other_ctor ''StorageManager'' (storage_ok env))
        (Inr stt)))))))))"

text \<open>
  Signals. \<open>main\<close> installs \<open>signalHandler\<close> for \<open>SIGINT\<close> and for no other signal, so
  \<open>SIGTERM\<close> keeps its default action, which ends the process at once, without an
  exit code.
\<close>

datatype signum = SIGINT | SIGTERM

datatype process_end = Exited int | Killed signum | StillRunning

fun deliver :: "signum list \<Rightarrow> globals \<Rightarrow> signum + globals" where
  "deliver [] g = Inr g"
| "deliver (SIGINT # rest) g = deliver rest (signalHandler g)"
| "deliver (SIGTERM # rest) g = Inl SIGTERM"

text \<open>
  \<open>main\<close>, on the startup behaviour and the signals delivered once the threads run.
  An exception in the \<open>try\<close> block is caught and \<open>main\<close> returns 1 before any thread
  is created. Otherwise the five threads are started and joined: each of them is a
  loop \<open>while (g_running)\<close>, so the joins return, and \<open>main\<close> returns 0, once the flag
  is cleared. The second component is the number of threads started.
\<close>

definition main :: "startup \<Rightarrow> signum list \<Rightarrow> process_end \<times> nat" where
  "main env signals =
     (case construct_collaborators env of
        Inl e \<Rightarrow> (Exited 1, 0)
      | Inr stt \<Rightarrow>
          (case deliver signals initial_globals of
             Inl s \<Rightarrow> (Killed s, 5)
           | Inr g \<Rightarrow> if g_running g then (StillRunning, 5) else (Exited 0, 5)))"

definition all_initialized :: "startup \<Rightarrow> bool" where
  "all_initialized env =
     (alsa_ok env \<and> i2c_ok env \<and> haptic_ok env \<and> power_ok env \<and> bluetooth_ok env \<and>
      wifi_ok env \<and> noise_ok env \<and> whisper_model env \<noteq> None \<and> keyword_ok env \<and>
      storage_ok env)"

section \<open>Bounded history and current transcription\<close>

lemma update_transcription_history:
  "g_transcription_history (update_transcription t g) =
     (if length (g_transcription_history g) < 100
      then g_transcription_history g @ [t]
      else tl (g_transcription_history g @ [t]))"
  by (simp add: update_transcription_def Let_def)

lemma update_transcription_last:
  "last (g_transcription_history (update_transcription t g)) = t"
  by (cases "g_transcription_history g") (simp_all add: update_transcription_history)

lemma update_transcription_current:
  "g_current_transcription (update_transcription t g) = t"
  by (simp add: update_transcription_def Let_def)

lemma update_transcription_flags:
  "g_running (update_transcription t g) = g_running g"
  "g_low_power_mode (update_transcription t g) = g_low_power_mode g"
  by (simp_all add: update_transcription_def Let_def)

lemma fold_update_history:
  "length (g_transcription_history g) \<le> 100 \<Longrightarrow>
   g_transcription_history (fold update_transcription texts g) =
     drop (length (g_transcription_history g) + length texts - 100)
          (g_transcription_history g @ texts)"
proof (induction texts arbitrary: g)
  case Nil
  then show ?case by simp
next
  case (Cons t texts)
  let ?h = "g_transcription_history g"
  let ?g' = "update_transcription t g"
  show ?case
  proof (cases "length ?h < 100")
    case True
    then have h': "g_transcription_history ?g' = ?h @ [t]"
      by (simp add: update_transcription_history)
    with True have "length (g_transcription_history ?g') \<le> 100" by simp
    from Cons.IH [OF this] show ?thesis by (simp add: h')
  next
    case False
    with Cons.prems have len: "length ?h = 100" by simp
    then obtain x hs where h: "?h = x # hs"
      by (cases ?h) auto
    from len h have hs: "length hs = 99" by simp
    have h': "g_transcription_history ?g' = hs @ [t]"
      using False h by (simp add: update_transcription_history)
    then have "length (g_transcription_history ?g') \<le> 100" using hs by simp
    from Cons.IH [OF this] show ?thesis
      by (simp add: h' h hs Suc_diff_le)
  qed
qed

lemma drop_map_upt: "drop k (map f [a..<b]) = map f [a + k..<b]"
  by (simp only: drop_map drop_upt)

lemma fold_update_current:
  "g_current_transcription (fold update_transcription texts g) =
     (if texts = [] then g_current_transcription g else last texts)"
  by (induction texts arbitrary: g) (simp_all add: update_transcription_current)

lemma audio_iteration_running:
  "g_running (fst (audio_iteration d t s)) = g_running (fst s)"
  by (simp add: audio_iteration_def update_transcription_flags)

lemma audioProcessingThread_fold:
  "g_running (fst s) \<Longrightarrow>
   fst (audioProcessingThread d outs s) =
     fold update_transcription (filter (\<lambda>t. t \<noteq> []) outs) (fst s)"
proof (induction outs arbitrary: s)
  case Nil
  then show ?case by simp
next
  case (Cons t outs)
  have "g_running (fst (audio_iteration d t s))"
    using Cons.prems by (simp add: audio_iteration_running)
  from Cons.IH [OF this] Cons.prems show ?case
    by (simp add: audio_iteration_def)
qed

text \<open>
  C2. For every sequence of appends the history holds at most 100 records and is
  exactly the last 100 appended texts in their order of arrival (first in, first
  out); after 101 appends record 1 is gone and record 2 is the oldest, and after 150
  appends the history is appends 51..150 in order.
\<close>

theorem history_bounded_fifo:
  "length (g_transcription_history (fold update_transcription texts initial_globals)) \<le> 100
   \<and> g_transcription_history (fold update_transcription texts initial_globals)
       = drop (length texts - 100) texts
   \<and> g_transcription_history (fold update_transcription (map f [1..<102]) initial_globals)
       = map f [2..<102]
   \<and> g_transcription_history (fold update_transcription (map f [1..<151]) initial_globals)
       = map f [51..<151]"
proof -
  have init: "length (g_transcription_history initial_globals) \<le> 100"
    by (simp add: initial_globals_def)
  have eq: "g_transcription_history (fold update_transcription ts initial_globals)
              = drop (length ts - 100) ts" for ts
    using fold_update_history [OF init, of ts] by (simp add: initial_globals_def)
  have len: "length (drop (length texts - 100) texts) \<le> 100" by simp
  have l101: "length (map f [1..<102]) - 100 = 1" by simp
  have l150: "length (map f [1..<151]) - 100 = 50" by simp
  have a2: "(1::nat) + 1 = 2" and a51: "(1::nat) + 50 = 51" by simp_all
  have d101: "drop 1 (map f [1..<102]) = map f [2..<102]"
    by (simp only: drop_map_upt a2)
  have d150: "drop 50 (map f [1..<151]) = map f [51..<151]"
    by (simp only: drop_map_upt a51)
  show ?thesis
    by (simp only: eq len l101 l150 d101 d150 simp_thms)
qed

text \<open>
  C6. After any sequence of appends the current transcription is the text of the
  last append, and the empty string when nothing was appended; the same holds for
  the thread run over any trace of transcription results, whose appends are the
  non-empty results.
\<close>

theorem current_is_last_append:
  "g_current_transcription (fold update_transcription texts initial_globals)
     = (if texts = [] then [] else last texts)
   \<and> g_current_transcription (fst (audioProcessingThread d outs (initial_globals, n)))
     = (if filter (\<lambda>t. t \<noteq> []) outs = [] then []
        else last (filter (\<lambda>t. t \<noteq> []) outs))"
proof -
  have run: "g_running (fst (initial_globals, n))"
    by (simp add: initial_globals_def)
  have cur: "g_current_transcription initial_globals = []"
    by (simp add: initial_globals_def)
  show ?thesis
    by (simp only: audioProcessingThread_fold [OF run] fold_update_current fst_conv cur)
qed

section \<open>Engine selection\<close>

lemma tolower_eq_lower:
  assumes "ascii_lower d"
  shows "(tolower c = d) = same_letter c d"
proof (cases "ascii_upper c")
  case True
  then have lt: "(of_char c :: nat) + 32 < 256" by (simp add: ascii_upper_def)
  have ne: "c \<noteq> d" using True assms by (auto simp: ascii_upper_def ascii_lower_def)
  have nd: "\<not> ascii_upper d" using assms by (auto simp: ascii_upper_def ascii_lower_def)
  have "(tolower c = d) = (char_of (of_char c + 32 :: nat) = d)"
    using True by (simp add: tolower_def)
  also have "\<dots> = ((of_char c :: nat) + 32 = of_char d)"
    using lt by (simp add: char_of_eq_iff take_bit_eq_mod)
  also have "\<dots> = same_letter c d"
    using True ne nd by (auto simp: same_letter_def)
  finally show ?thesis .
next
  case False
  have nd: "\<not> ascii_upper d" using assms by (auto simp: ascii_upper_def ascii_lower_def)
  have t: "tolower c = c" using False by (simp add: tolower_def)
  have "same_letter c d = (c = d)" using False nd by (simp add: same_letter_def)
  with t show ?thesis by simp
qed

lemma map_tolower_eq_lower:
  "list_all ascii_lower l \<Longrightarrow> (map tolower name = l) = equal_ignoring_case name l"
  unfolding equal_ignoring_case_def
proof (induction name arbitrary: l)
  case Nil
  then show ?case by auto
next
  case (Cons c name)
  show ?case
  proof (cases l)
    case Nil
    then show ?thesis by simp
  next
    case (Cons d l')
    with Cons.prems have "ascii_lower d" "list_all ascii_lower l'" by simp_all
    then show ?thesis using Cons.IH [of l'] Cons by (simp add: tolower_eq_lower)
  qed
qed

lemma lower_literals:
  "list_all ascii_lower ''whisper''" "list_all ascii_lower ''vosk''"
  "list_all ascii_lower ''deepspeech''"
  by (simp_all add: ascii_lower_def)

text \<open>
  C10. For every engine name, \<open>setEngine\<close> returns an object (it has no failing
  branch) whose engine is chosen by comparing the name, case-insensitively, with
  \<open>whisper\<close>, \<open>vosk\<close> and \<open>deepspeech\<close> in this order; any other name selects
  Whisper. The other fields are unchanged.
\<close>

theorem setEngine_case_insensitive:
  "fst (setEngine engine_name stt) =
     stt\<lparr>engine :=
       (if equal_ignoring_case engine_name ''whisper'' then WHISPER
        else if equal_ignoring_case engine_name ''vosk'' then VOSK
        else if equal_ignoring_case engine_name ''deepspeech'' then DEEPSPEECH
        else WHISPER)\<rparr>
   \<and> engine (fst (setEngine ''VoSk'' stt)) = VOSK
   \<and> engine (fst (setEngine ''DEEPspeech'' stt)) = DEEPSPEECH
   \<and> engine (fst (setEngine ''Whisper'' stt)) = WHISPER
   \<and> engine (fst (setEngine ''kaldi'' stt)) = WHISPER"
proof -
  have 1: "fst (setEngine engine_name stt) =
     stt\<lparr>engine :=
       (if equal_ignoring_case engine_name ''whisper'' then WHISPER
        else if equal_ignoring_case engine_name ''vosk'' then VOSK
        else if equal_ignoring_case engine_name ''deepspeech'' then DEEPSPEECH
        else WHISPER)\<rparr>"
    by (simp add: setEngine_def Let_def map_tolower_eq_lower [OF lower_literals(1)]
        map_tolower_eq_lower [OF lower_literals(2)] map_tolower_eq_lower [OF lower_literals(3)])
  have 2: "engine (fst (setEngine ''VoSk'' stt)) = VOSK"
    by (simp add: setEngine_def tolower_def ascii_upper_def char_of_eq_iff)
  have 3: "engine (fst (setEngine ''DEEPspeech'' stt)) = DEEPSPEECH"
    by (simp add: setEngine_def tolower_def ascii_upper_def char_of_eq_iff)
  have 4: "engine (fst (setEngine ''Whisper'' stt)) = WHISPER"
    by (simp add: setEngine_def tolower_def ascii_upper_def char_of_eq_iff)
  have 5: "engine (fst (setEngine ''kaldi'' stt)) = WHISPER"
    by (simp add: setEngine_def tolower_def ascii_upper_def char_of_eq_iff)
  from 1 2 3 4 5 show ?thesis by (intro conjI)
qed

section \<open>Empty and failed transcriptions in the capture loop\<close>

lemma transcribe_failed_inference:
  "engine stt = WHISPER \<Longrightarrow> engine_handle stt \<noteq> None \<Longrightarrow> whisper_full_rc w \<noteq> 0 \<Longrightarrow>
   transcribe stt w = ''Failed to run Whisper inference''"
  by (simp add: transcribe_def transcribeWithWhisper_def)

text \<open>
  C4, as the claim states it, fails: with the Whisper engine loaded and
  \<open>whisper_full\<close> returning a non-zero code, the iteration appends the error message
  to the history and makes it the current transcription.
\<close>

theorem failed_inference_is_appended:
  "g_transcription_history (fst (audio_loop_body
       \<lparr>engine = WHISPER, language = ''en'', engine_handle = Some 1\<rparr> (\<lambda>t. False)
       \<lparr>whisper_full_rc = 1, segment_texts = []\<rparr> (initial_globals, 0)))
     = [''Failed to run Whisper inference'']
   \<and> g_current_transcription (fst (audio_loop_body
       \<lparr>engine = WHISPER, language = ''en'', engine_handle = Some 1\<rparr> (\<lambda>t. False)
       \<lparr>whisper_full_rc = 1, segment_texts = []\<rparr> (initial_globals, 0)))
     = ''Failed to run Whisper inference''"
  by (simp add: audio_loop_body_def audio_iteration_def transcribe_def
      transcribeWithWhisper_def update_transcription_def initial_globals_def)

text \<open>
  C4, amended. An empty transcription leaves the shared state (and the haptic
  count) as it was. A failed Whisper inference is not told apart from speech: the
  iteration is the append of the message \<open>Failed to run Whisper inference\<close>, which
  becomes the current transcription and the newest record of the history. The
  iteration always returns a state, so the loop goes on.
\<close>

theorem empty_is_noop_failure_is_appended:
  "(transcribe stt w = [] \<longrightarrow> audio_loop_body stt d w s = s)
   \<and> (engine stt = WHISPER \<and> engine_handle stt \<noteq> None \<and> whisper_full_rc w \<noteq> 0 \<longrightarrow>
        fst (audio_loop_body stt d w s)
          = update_transcription ''Failed to run Whisper inference'' (fst s)
        \<and> g_current_transcription (fst (audio_loop_body stt d w s))
          = ''Failed to run Whisper inference''
        \<and> last (g_transcription_history (fst (audio_loop_body stt d w s)))
          = ''Failed to run Whisper inference'')"
proof (intro conjI impI)
  assume "transcribe stt w = []"
  then show "audio_loop_body stt d w s = s"
    by (simp add: audio_loop_body_def audio_iteration_def)
next
  assume a: "engine stt = WHISPER \<and> engine_handle stt \<noteq> None \<and> whisper_full_rc w \<noteq> 0"
  then have t: "transcribe stt w = ''Failed to run Whisper inference''"
    by (simp add: transcribe_failed_inference)
  show f: "fst (audio_loop_body stt d w s)
          = update_transcription ''Failed to run Whisper inference'' (fst s)"
    by (simp add: audio_loop_body_def audio_iteration_def t)
  show "g_current_transcription (fst (audio_loop_body stt d w s))
          = ''Failed to run Whisper inference''"
    by (simp only: f update_transcription_current)
  show "last (g_transcription_history (fst (audio_loop_body stt d w s)))
          = ''Failed to run Whisper inference''"
    by (simp only: f update_transcription_last)
qed

theorem empty_is_noop_failure_is_appended_witness:
  "transcribe \<lparr>engine = WHISPER, language = ''en'', engine_handle = Some 1\<rparr>
       \<lparr>whisper_full_rc = 0, segment_texts = []\<rparr> = []
   \<and> audio_loop_body \<lparr>engine = WHISPER, language = ''en'', engine_handle = Some 1\<rparr> (\<lambda>t. False)
       \<lparr>whisper_full_rc = 0, segment_texts = []\<rparr> (initial_globals, 0) = (initial_globals, 0)
   \<and> g_current_transcription (fst (audio_loop_body
       \<lparr>engine = WHISPER, language = ''en'', engine_handle = Some 1\<rparr> (\<lambda>t. False)
       \<lparr>whisper_full_rc = 1, segment_texts = []\<rparr> (initial_globals, 0)))
     = ''Failed to run Whisper inference''"
proof -
  let ?stt = "\<lparr>engine = WHISPER, language = ''en'', engine_handle = Some (1::nat)\<rparr>"
  let ?ok = "\<lparr>whisper_full_rc = 0, segment_texts = []\<rparr>"
  let ?bad = "\<lparr>whisper_full_rc = 1, segment_texts = []\<rparr>"
  have e: "transcribe ?stt ?ok = []"
    by (simp add: transcribe_def transcribeWithWhisper_def)
  have h: "engine ?stt = WHISPER \<and> engine_handle ?stt \<noteq> None \<and> whisper_full_rc ?bad \<noteq> 0"
    by simp
  from empty_is_noop_failure_is_appended [of ?stt ?ok "\<lambda>t. False" "(initial_globals, 0)"] e
  have 1: "audio_loop_body ?stt (\<lambda>t. False) ?ok (initial_globals, 0) = (initial_globals, 0)"
    by blast
  from empty_is_noop_failure_is_appended [of ?stt ?bad "\<lambda>t. False" "(initial_globals, 0)"] h
  have 2: "g_current_transcription (fst (audio_loop_body ?stt (\<lambda>t. False) ?bad (initial_globals, 0)))
     = ''Failed to run Whisper inference''"
    by blast
  from e 1 2 show ?thesis by (intro conjI)
qed

section \<open>Text wrapping\<close>

lemma wrapText_length: "length (wrapText text lines) \<le> 8"
  by (simp add: wrapText_def Let_def)

lemma wrapText_truncates:
  "wrapText text lines =
     take 8 (if fst (wrap_words (extract_words [] text) ([], lines)) \<noteq> []
             then snd (wrap_words (extract_words [] text) ([], lines))
                  @ [fst (wrap_words (extract_words [] text) ([], lines))]
             else snd (wrap_words (extract_words [] text) ([], lines)))"
  by (simp add: wrapText_def Let_def)

text \<open>
  C7. The wrapping never returns more than 8 lines, but a word longer than 21
  characters becomes a line of its own that is longer than the wrap width: the text
  \<open>the counterrevolutionaries fled\<close> is wrapped into three lines, the second of 22
  characters.
\<close>

theorem wrapText_long_word_exceeds_width:
  "length (showText_lines text) \<le> 8
   \<and> showText_lines ''the counterrevolutionaries fled''
       = [''the'', ''counterrevolutionaries'', ''fled'']
   \<and> length (showText_lines ''the counterrevolutionaries fled'' ! 1) = 22"
proof -
  have b: "length (showText_lines text) \<le> 8"
    by (simp add: showText_lines_def wrapText_length)
  have l: "showText_lines ''the counterrevolutionaries fled''
       = [''the'', ''counterrevolutionaries'', ''fled'']"
    by code_simp
  have n: "length ([''the'', ''counterrevolutionaries'', ''fled''] ! 1) = 22"
    by simp
  from b l n show ?thesis by (simp only: simp_thms)
qed

section \<open>The storage thread and the bounded history\<close>

lemma save_from_texts:
  "map rec_text (save_from ts cur i st) = map rec_text st @ drop i cur"
proof (induction ts cur i st rule: save_from.induct)
  case (1 ts cur i st)
  show ?case
  proof (cases "i < length cur")
    case True
    have "map rec_text (save_from ts cur i st)
            = map rec_text (save_from ts cur (Suc i)
                (saveTranscription (ts i) (cur ! i) st))"
      using True by simp
    also have "\<dots> = map rec_text (saveTranscription (ts i) (cur ! i) st) @ drop (Suc i) cur"
      using "1.IH" [OF True] .
    also have "\<dots> = map rec_text st @ drop i cur"
      using True by (simp add: saveTranscription_def Cons_nth_drop_Suc)
    finally show ?thesis .
  next
    case False
    then show ?thesis by simp
  qed
qed

lemma storage_iteration_texts:
  "length (fst s) < length (g_transcription_history g) \<Longrightarrow>
   fst (storage_iteration ts g s) = g_transcription_history g \<and>
   map rec_text (snd (storage_iteration ts g s))
     = map rec_text (snd s) @ drop (length (fst s)) (g_transcription_history g)"
  by (simp add: storage_iteration_def Let_def save_from_texts del: save_from.simps)

lemma storage_iteration_same_size:
  "length (g_transcription_history g) \<le> length (fst s) \<Longrightarrow> storage_iteration ts g s = s"
  by (simp add: storage_iteration_def Let_def del: save_from.simps)

lemma map_upt_split:
  "a \<le> b \<Longrightarrow> b \<le> c \<Longrightarrow> map f [a..<b] @ map f [b..<c] = map f [a..<c]"
proof -
  assume ab: "a \<le> b" and bc: "b \<le> c"
  then have "[a..<c] = [a..<b] @ [b..<c]"
    using upt_add_eq_append [of a b "c - b"] by simp
  then show ?thesis by (simp only: map_append)
qed

lemma storage_loses_evicted_unsaved:
  "map rec_text (snd (storage_iteration ts'
       (fold update_transcription (map f [51..<152])
          (fold update_transcription (map f [1..<51]) initial_globals))
       (storage_iteration ts
          (fold update_transcription (map f [1..<51]) initial_globals) ([], []))))
     = map f [1..<51] @ map f [102..<152]"
proof -
  let ?g50 = "fold update_transcription (map f [1..<51]) initial_globals"
  let ?s1 = "storage_iteration ts ?g50 ([], [])"
  let ?g151 = "fold update_transcription (map f [51..<152]) ?g50"
  have init: "length (g_transcription_history initial_globals) \<le> 100"
    and h0: "g_transcription_history initial_globals = []"
    by (simp_all add: initial_globals_def)
  have l50: "length (map f [1..<51]) = 50" and l101: "length (map f [51..<152]) = 101"
    and l100: "length (map f [52..<152]) = 100"
    by simp_all
  have h50: "g_transcription_history ?g50 = map f [1..<51]"
    using fold_update_history [OF init, of "map f [1..<51]"]
    by (simp only: h0 l50 append_Nil list.size, simp?)
  have len50: "length (g_transcription_history ?g50) \<le> 100"
    by (simp only: h50 l50, simp?)
  have "g_transcription_history ?g151
          = drop (50 + 101 - 100) (map f [1..<51] @ map f [51..<152])"
    using fold_update_history [OF len50, of "map f [51..<152]"]
    by (simp only: h50 l50 l101)
  also have "map f [1..<51] @ map f [51..<152] = map f [1..<152]"
    by (rule map_upt_split) simp_all
  also have "drop (50 + 101 - 100) (map f [1..<152]) = map f [1 + 51..<152]"
    by (simp only: drop_map_upt, simp?)
  finally have h151: "g_transcription_history ?g151 = map f [52..<152]"
    by simp
  have "length (fst ([] :: string list, [] :: stored_record list))
          < length (g_transcription_history ?g50)"
    by (simp only: h50 l50, simp?)
  from storage_iteration_texts [OF this, of ts]
  have s1: "fst ?s1 = map f [1..<51]" "map rec_text (snd ?s1) = map f [1..<51]"
    by (simp_all only: h50 fst_conv snd_conv list.map append_Nil list.size drop_0)
  have "length (fst ?s1) < length (g_transcription_history ?g151)"
    by (simp only: s1 h151 l50 l100, simp?)
  from storage_iteration_texts [OF this, of ts']
  have "map rec_text (snd (storage_iteration ts' ?g151 ?s1))
          = map f [1..<51] @ drop 50 (map f [52..<152])"
    by (simp only: s1 h151 l50)
  also have "drop 50 (map f [52..<152]) = map f [52 + 50..<152]"
    by (simp only: drop_map_upt)
  finally show ?thesis by simp
qed

lemma storage_full_history_example:
  "map rec_text (snd (storage_iteration ts
       (fold update_transcription (replicate 100 ''a'') initial_globals) ([], [])))
     = replicate 100 ''a''
   \<and> last (g_transcription_history (update_transcription ''b''
       (fold update_transcription (replicate 100 ''a'') initial_globals))) = ''b''
   \<and> storage_iteration ts' (update_transcription ''b''
         (fold update_transcription (replicate 100 ''a'') initial_globals))
       (storage_iteration ts
         (fold update_transcription (replicate 100 ''a'') initial_globals) ([], []))
     = storage_iteration ts
         (fold update_transcription (replicate 100 ''a'') initial_globals) ([], [])
   \<and> ''b'' \<notin> set (map rec_text (snd (storage_iteration ts' (update_transcription ''b''
         (fold update_transcription (replicate 100 ''a'') initial_globals))
       (storage_iteration ts
         (fold update_transcription (replicate 100 ''a'') initial_globals) ([], [])))))"
proof -
  let ?g100 = "fold update_transcription (replicate 100 ''a'') initial_globals"
  let ?s1 = "storage_iteration ts ?g100 ([], [])"
  let ?g101 = "update_transcription ''b'' ?g100"
  have init: "length (g_transcription_history initial_globals) \<le> 100"
    by (simp add: initial_globals_def)
  have h100: "g_transcription_history ?g100 = replicate 100 ''a''"
    using fold_update_history [OF init, of "replicate 100 ''a''"]
    by (simp add: initial_globals_def)
  have "length (fst ([] :: string list, [] :: stored_record list))
          < length (g_transcription_history ?g100)"
    by (simp only: h100) simp
  from storage_iteration_texts [OF this, of ts]
  have s1: "fst ?s1 = replicate 100 ''a''" "map rec_text (snd ?s1) = replicate 100 ''a''"
    by (simp_all only: h100 fst_conv snd_conv list.map append_Nil list.size drop_0)
  have len101: "length (g_transcription_history ?g101) = 100"
    by (simp only: update_transcription_history h100) simp
  then have "length (g_transcription_history ?g101) \<le> length (fst ?s1)"
    by (simp only: s1) simp
  then have noop: "storage_iteration ts' ?g101 ?s1 = ?s1"
    by (rule storage_iteration_same_size)
  have b: "''b'' \<notin> set (map rec_text (snd ?s1))"
    by (simp only: s1) simp
  have l: "last (g_transcription_history ?g101) = ''b''"
    by (rule update_transcription_last)
  from s1(2) l noop b show ?thesis by (simp only: simp_thms)
qed

text \<open>
  C1. The storage thread compares the sizes of two snapshots of the bounded
  history, so it loses records as soon as the history evicts. With 50 appends, a
  cycle, 101 further appends and a second cycle, the store holds appends 1..50 and
  102..151: appends 51..101 were evicted unsaved and are never written. With 100
  appends, a cycle, one further append \<open>b\<close> and a second cycle, the second cycle writes
  nothing and \<open>b\<close> is not in the store.
\<close>

theorem storageThread_misses_append_after_eviction:
  "map rec_text (snd (storage_iteration ts'
       (fold update_transcription (map f [51..<152])
          (fold update_transcription (map f [1..<51]) initial_globals))
       (storage_iteration ts
          (fold update_transcription (map f [1..<51]) initial_globals) ([], []))))
     = map f [1..<51] @ map f [102..<152]
   \<and> last (g_transcription_history (update_transcription ''b''
       (fold update_transcription (replicate 100 ''a'') initial_globals))) = ''b''
   \<and> ''b'' \<notin> set (map rec_text (snd (storage_iteration ts' (update_transcription ''b''
         (fold update_transcription (replicate 100 ''a'') initial_globals))
       (storage_iteration ts
         (fold update_transcription (replicate 100 ''a'') initial_globals) ([], [])))))"
proof -
  note a = storage_loses_evicted_unsaved [of ts' f ts]
  note b = storage_full_history_example [of ts ts']
  from b have b2: "last (g_transcription_history (update_transcription ''b''
       (fold update_transcription (replicate 100 ''a'') initial_globals))) = ''b''"
    by (rule conjunct1 [OF conjunct2])
  from b have b4: "''b'' \<notin> set (map rec_text (snd (storage_iteration ts'
         (update_transcription ''b''
           (fold update_transcription (replicate 100 ''a'') initial_globals))
       (storage_iteration ts
         (fold update_transcription (replicate 100 ''a'') initial_globals) ([], [])))))"
    by (rule conjunct2 [OF conjunct2 [OF conjunct2]])
  from a b2 b4 show ?thesis by (intro conjI)
qed

section \<open>The long-range backup in the connectivity thread\<close>

lemma unsynced_after_mark:
  "getUnsyncedTranscriptions (markTranscriptionsAsSynced st) = []"
  by (induction st) (simp_all add: getUnsyncedTranscriptions_def markTranscriptionsAsSynced_def)

text \<open>
  C3, as the claim states it, fails: with the transport enabled and connected and
  an upload that delivers nothing, the one unsynced record of the store is marked
  synced all the same; the backup holds nothing and no record is left for a retry.
\<close>

theorem failed_upload_marked_synced:
  "map rec_synced (store (connectivity_iteration
       \<lparr>bt_connected = False, wifi_enabled = True, wifi_connected = True, wifi_delivered = 0\<rparr>
       initial_globals
       \<lparr>store = [\<lparr>rec_timestamp = ''2024-01-01 12:00:00'', rec_text = ''hello'',
                    rec_synced = False\<rparr>],
        backed_up = [], bt_synced = []\<rparr>)) = [True]
   \<and> backed_up (connectivity_iteration
       \<lparr>bt_connected = False, wifi_enabled = True, wifi_connected = True, wifi_delivered = 0\<rparr>
       initial_globals
       \<lparr>store = [\<lparr>rec_timestamp = ''2024-01-01 12:00:00'', rec_text = ''hello'',
                    rec_synced = False\<rparr>],
        backed_up = [], bt_synced = []\<rparr>) = []
   \<and> getUnsyncedTranscriptions (store (connectivity_iteration
       \<lparr>bt_connected = False, wifi_enabled = True, wifi_connected = True, wifi_delivered = 0\<rparr>
       initial_globals
       \<lparr>store = [\<lparr>rec_timestamp = ''2024-01-01 12:00:00'', rec_text = ''hello'',
                    rec_synced = False\<rparr>],
        backed_up = [], bt_synced = []\<rparr>)) = []"
  by (simp add: connectivity_iteration_def backupTranscriptions_def
      getUnsyncedTranscriptions_def markTranscriptionsAsSynced_def)

text \<open>
  C3, amended. If the long-range transport is enabled and connected, a cycle hands
  the unsynced records of the store to the upload and then marks every record of the
  store as synced, whatever part of the batch was delivered, so that no record is
  left unsynced; otherwise the cycle changes neither the store nor the backup.
\<close>

theorem connectivity_marks_all_synced:
  "(wifi_enabled l \<and> wifi_connected l \<longrightarrow>
      backed_up (connectivity_iteration l g c)
        = backed_up c @ take (wifi_delivered l) (getUnsyncedTranscriptions (store c))
      \<and> store (connectivity_iteration l g c) = markTranscriptionsAsSynced (store c)
      \<and> getUnsyncedTranscriptions (store (connectivity_iteration l g c)) = [])
   \<and> (\<not> (wifi_enabled l \<and> wifi_connected l) \<longrightarrow>
      backed_up (connectivity_iteration l g c) = backed_up c
      \<and> store (connectivity_iteration l g c) = store c)"
  by (simp add: connectivity_iteration_def Let_def backupTranscriptions_def unsynced_after_mark)

theorem connectivity_marks_all_synced_witness:
  "store (connectivity_iteration
       \<lparr>bt_connected = True, wifi_enabled = True, wifi_connected = True, wifi_delivered = 1\<rparr>
       initial_globals
       \<lparr>store = [\<lparr>rec_timestamp = ''2024-01-01 12:00:00'', rec_text = ''hello'',
                    rec_synced = False\<rparr>,
                 \<lparr>rec_timestamp = ''2024-01-01 12:00:05'', rec_text = ''world'',
                    rec_synced = False\<rparr>],
        backed_up = [], bt_synced = []\<rparr>)
     = [\<lparr>rec_timestamp = ''2024-01-01 12:00:00'', rec_text = ''hello'', rec_synced = True\<rparr>,
        \<lparr>rec_timestamp = ''2024-01-01 12:00:05'', rec_text = ''world'', rec_synced = True\<rparr>]
   \<and> store (connectivity_iteration
       \<lparr>bt_connected = True, wifi_enabled = True, wifi_connected = False, wifi_delivered = 1\<rparr>
       initial_globals
       \<lparr>store = [\<lparr>rec_timestamp = ''2024-01-01 12:00:00'', rec_text = ''hello'',
                    rec_synced = False\<rparr>],
        backed_up = [], bt_synced = []\<rparr>)
     = [\<lparr>rec_timestamp = ''2024-01-01 12:00:00'', rec_text = ''hello'', rec_synced = False\<rparr>]"
proof -
  let ?up = "\<lparr>bt_connected = True, wifi_enabled = True, wifi_connected = True,
              wifi_delivered = 1\<rparr>"
  let ?down = "\<lparr>bt_connected = True, wifi_enabled = True, wifi_connected = False,
                wifi_delivered = 1\<rparr>"
  let ?c2 = "\<lparr>store = [\<lparr>rec_timestamp = ''2024-01-01 12:00:00'', rec_text = ''hello'',
                    rec_synced = False\<rparr>,
                 \<lparr>rec_timestamp = ''2024-01-01 12:00:05'', rec_text = ''world'',
                    rec_synced = False\<rparr>],
        backed_up = [], bt_synced = []\<rparr>"
  let ?c1 = "\<lparr>store = [\<lparr>rec_timestamp = ''2024-01-01 12:00:00'', rec_text = ''hello'',
                    rec_synced = False\<rparr>],
        backed_up = [], bt_synced = []\<rparr>"
  have up: "wifi_enabled ?up \<and> wifi_connected ?up" by simp
  have down: "\<not> (wifi_enabled ?down \<and> wifi_connected ?down)" by simp
  from connectivity_marks_all_synced [of ?up initial_globals ?c2] up
  have 1: "store (connectivity_iteration ?up initial_globals ?c2)
             = markTranscriptionsAsSynced (store ?c2)"
    by blast
  from connectivity_marks_all_synced [of ?down initial_globals ?c1] down
  have 2: "store (connectivity_iteration ?down initial_globals ?c1) = store ?c1"
    by blast
  show ?thesis
    by (simp only: 1 2) (simp add: markTranscriptionsAsSynced_def)
qed

section \<open>Power mode hysteresis\<close>

lemma float_value_grid:
  assumes "- int N \<le> e"
  shows "float_value m e * 2 ^ N = of_int (m * 2 ^ nat (e + int N))"
proof (cases "0 \<le> e")
  case True
  then have "nat (e + int N) = nat e + N" by simp
  then show ?thesis using True by (simp add: float_value_def power_add)
next
  case False
  define n where "n = nat (- e)"
  have n: "n \<le> N" "nat (e + int N) = N - n" using assms False by (simp_all add: n_def)
  have "(2::real) ^ N = 2 ^ n * 2 ^ (N - n)"
    using n(1) by (simp add: power_add [symmetric])
  then show ?thesis using False n(2) by (simp add: float_value_def n_def [symmetric])
qed

lemma float_value_small:
  assumes "\<bar>m\<bar> < 2 ^ 24" "e < - int N"
  shows "float_value m e < 2 ^ 24 / 2 ^ Suc N"
proof -
  define n where "n = nat (- e)"
  have n: "Suc N \<le> n" and e: "\<not> 0 \<le> e" using assms(2) by (simp_all add: n_def)
  have "(2::real) ^ Suc N \<le> 2 ^ n" using n by (intro power_increasing) simp_all
  then have le: "(2::real) ^ 24 / 2 ^ n \<le> 2 ^ 24 / 2 ^ Suc N"
    by (intro divide_left_mono) simp_all
  have "of_int m < (2::real) ^ 24"
  proof -
    have "m < 2 ^ 24" using assms(1) by simp
    then have "(of_int m :: real) < of_int (2 ^ 24)" by (simp only: of_int_less_iff)
    then show ?thesis by simp
  qed
  then have "of_int m / (2::real) ^ n < 2 ^ 24 / 2 ^ n"
    by (intro divide_strict_right_mono) simp_all
  with le show ?thesis using e by (simp add: float_value_def n_def [symmetric])
qed

lemma float_less_0_2:
  assumes "valid_float32 f"
  shows "float_less f double_0_2 = float_less f (1 / 5)"
proof (cases f)
  case (Finite m e)
  let ?x = "float_value m e"
  have up: "?x < 1 / 5 \<Longrightarrow> ?x < double_0_2"
    by (simp add: double_0_2_def)
  have down: "?x < 1 / 5" if lt: "?x < double_0_2"
  proof (rule ccontr)
    assume "\<not> ?x < 1 / 5"
    then have ge: "1 / 5 \<le> ?x" by simp
    show False
    proof (cases "- int 26 \<le> e")
      case True
      define k where "k = m * 2 ^ nat (e + int 26)"
      have x: "?x * 2 ^ 26 = of_int k"
        unfolding k_def by (rule float_value_grid [OF True])
      have xk: "?x * 67108864 = of_int k" using x by simp
      have "(67108864::real) \<le> 5 * of_int k" using ge xk by linarith
      then have "(67108864::real) \<le> of_int (5 * k)" by simp
      then have "(67108864::int) \<le> 5 * k" by linarith
      then have k1: "13421773 \<le> k" by simp
      have "?x < 3602879701896397 / 18014398509481984"
        using lt by (simp add: double_0_2_def)
      then have "of_int k * (268435456::real) < 3602879701896397"
        using xk by linarith
      then have "(of_int (k * 268435456) :: real) < of_int 3602879701896397" by simp
      then have "k * 268435456 < 3602879701896397" by (simp only: of_int_less_iff)
      then have "k \<le> 13421772" by simp
      with k1 show False by simp
    next
      case False
      then have "e < - int 26" by simp
      with assms Finite have "?x < 2 ^ 24 / 2 ^ Suc 26"
        by (intro float_value_small) simp_all
      with ge show False by simp
    qed
  qed
  from up down show ?thesis unfolding Finite by auto
qed simp_all

lemma float_greater_0_3:
  assumes "valid_float32 f"
  shows "float_greater f double_0_3 = float_greater f (3 / 10)"
proof (cases f)
  case (Finite m e)
  let ?x = "float_value m e"
  have up: "3 / 10 < ?x \<Longrightarrow> double_0_3 < ?x"
    by (simp add: double_0_3_def)
  have down: "3 / 10 < ?x" if gt: "double_0_3 < ?x"
  proof (rule ccontr)
    assume "\<not> 3 / 10 < ?x"
    then have le: "?x \<le> 3 / 10" by simp
    show False
    proof (cases "- int 25 \<le> e")
      case True
      define k where "k = m * 2 ^ nat (e + int 25)"
      have x: "?x * 2 ^ 25 = of_int k"
        unfolding k_def by (rule float_value_grid [OF True])
      have xk: "?x * 33554432 = of_int k" using x by simp
      have "10 * of_int k \<le> (100663296::real)" using le xk by linarith
      then have "of_int (10 * k) \<le> (100663296::real)" by simp
      then have "10 * k \<le> (100663296::int)" by linarith
      then have k1: "k \<le> 10066329" by simp
      have "5404319552844595 / 18014398509481984 < ?x"
        using gt by (simp add: double_0_3_def)
      then have "(5404319552844595::real) < of_int k * 536870912"
        using xk by linarith
      then have "(of_int 5404319552844595 :: real) < of_int (k * 536870912)" by simp
      then have "5404319552844595 < k * 536870912" by (simp only: of_int_less_iff)
      then have "10066330 \<le> k" by simp
      with k1 show False by simp
    next
      case False
      then have "e < - int 25" by simp
      with assms Finite have "?x < 2 ^ 24 / 2 ^ Suc 25"
        by (intro float_value_small) simp_all
      with gt show False by (simp add: double_0_3_def)
    qed
  qed
  from up down show ?thesis unfolding Finite by auto
qed simp_all

lemma power_iteration_mode:
  "g_low_power_mode (fst (power_iteration level s)) =
     (if float_less level double_0_2 then True
      else if float_greater level double_0_3 then False
      else g_low_power_mode (fst s))"
  by (simp add: power_iteration_def Let_def)

lemma power_iteration_published:
  "snd (power_iteration level s) = snd s @ [g_low_power_mode (fst (power_iteration level s))]"
  by (simp add: power_iteration_def Let_def)

lemma below_not_above: "float_less level (1 / 5) \<Longrightarrow> \<not> float_greater level (3 / 10)"
  by (cases level) auto

text \<open>
  C5. For every battery sample that is a binary32 value, the mode after the
  iteration follows the hysteresis with the band from 0.20 to 0.30: from Normal it is
  Low exactly when the sample is below one fifth, from Low it is Normal exactly when
  the sample is above three tenths, a sample inside the band keeps the mode, and the
  mode passed to the power hardware is the new mode. From Normal, the samples 0.25,
  0.15 and 0.35 (as floats) give Normal, Low, Normal.
\<close>

theorem power_mode_hysteresis:
  assumes "valid_float32 level"
  shows "g_low_power_mode (fst (power_iteration level s)) =
           (if g_low_power_mode (fst s) then \<not> float_greater level (3 / 10)
            else float_less level (1 / 5))
         \<and> (\<not> float_less level (1 / 5) \<and> \<not> float_greater level (3 / 10) \<longrightarrow>
              g_low_power_mode (fst (power_iteration level s)) = g_low_power_mode (fst s))
         \<and> last (snd (power_iteration level s)) = g_low_power_mode (fst (power_iteration level s))
         \<and> snd (powerManagementThread
               [Finite 1 (- 2), Finite 5033165 (- 25), Finite 11744051 (- 25)]
               (initial_globals, []))
             = [False, True, False]"
proof -
  have lt: "float_less level double_0_2 = float_less level (1 / 5)"
    by (rule float_less_0_2 [OF assms])
  have gt: "float_greater level double_0_3 = float_greater level (3 / 10)"
    by (rule float_greater_0_3 [OF assms])
  have 1: "g_low_power_mode (fst (power_iteration level s)) =
           (if g_low_power_mode (fst s) then \<not> float_greater level (3 / 10)
            else float_less level (1 / 5))"
    using below_not_above [of level] by (auto simp: power_iteration_mode lt gt)
  have 2: "\<not> float_less level (1 / 5) \<and> \<not> float_greater level (3 / 10) \<longrightarrow>
              g_low_power_mode (fst (power_iteration level s)) = g_low_power_mode (fst s)"
    by (simp add: power_iteration_mode lt gt)
  have 3: "last (snd (power_iteration level s)) = g_low_power_mode (fst (power_iteration level s))"
    by (subst power_iteration_published) simp
  have 4: "snd (powerManagementThread
               [Finite 1 (- 2), Finite 5033165 (- 25), Finite 11744051 (- 25)]
               (initial_globals, []))
             = [False, True, False]"
    by (simp add: power_iteration_def initial_globals_def float_value_def
        double_0_2_def double_0_3_def)
  from 1 2 3 4 show ?thesis by (intro conjI)
qed

theorem power_mode_hysteresis_witness:
  "valid_float32 (Finite 5033165 (- 25))
   \<and> g_low_power_mode (fst (power_iteration (Finite 5033165 (- 25)) (initial_globals, [])))
   \<and> valid_float32 (Finite 11744051 (- 25))
   \<and> \<not> g_low_power_mode (fst (power_iteration (Finite 11744051 (- 25))
         (initial_globals\<lparr>g_low_power_mode := True\<rparr>, [True])))
   \<and> valid_float32 (Finite 1 (- 2))
   \<and> g_low_power_mode (fst (power_iteration (Finite 1 (- 2))
         (initial_globals\<lparr>g_low_power_mode := True\<rparr>, [True])))"
proof -
  have v: "valid_float32 (Finite 5033165 (- 25))" "valid_float32 (Finite 11744051 (- 25))"
    "valid_float32 (Finite 1 (- 2))"
    by simp_all
  show ?thesis
    using power_mode_hysteresis [OF v(1), of "(initial_globals, [])"]
      power_mode_hysteresis [OF v(2), of "(initial_globals\<lparr>g_low_power_mode := True\<rparr>, [True])"]
      power_mode_hysteresis [OF v(3), of "(initial_globals\<lparr>g_low_power_mode := True\<rparr>, [True])"]
    by (simp add: initial_globals_def float_value_def)
qed

section \<open>Exit codes\<close>

lemma SpeechToText_ctor_whisper:
  "SpeechToText_ctor ''whisper'' None
     = Inl (runtime_error ''Failed to initialize speech-to-text engine'')"
  "SpeechToText_ctor ''whisper'' (Some ctx)
     = Inr \<lparr>engine = WHISPER, language = ''en'', engine_handle = Some ctx\<rparr>"
  by (simp_all add: SpeechToText_ctor_def setEngine_def initializeEngine_def cleanupEngine_def
      tolower_def ascii_upper_def Let_def)

lemma construct_fails:
  "\<not> all_initialized env \<Longrightarrow> \<exists>e. construct_collaborators env = Inl e"
  by (cases "whisper_model env")
     (auto simp: all_initialized_def construct_collaborators_def and_then_def
        AudioCapture_ctor_def Display_ctor_def other_ctor_def SpeechToText_ctor_whisper)

lemma construct_succeeds:
  "all_initialized env \<Longrightarrow> \<exists>stt. construct_collaborators env = Inr stt"
  by (cases "whisper_model env")
     (auto simp: all_initialized_def construct_collaborators_def and_then_def
        AudioCapture_ctor_def Display_ctor_def other_ctor_def SpeechToText_ctor_whisper)

lemma deliver_sigint:
  "list_all (\<lambda>s. s = SIGINT) signals \<Longrightarrow>
   deliver signals g = Inr (if signals = [] then g else signalHandler g)"
proof (induction signals arbitrary: g)
  case Nil
  then show ?case by simp
next
  case (Cons s signals)
  then have s: "s = SIGINT" and rest: "list_all (\<lambda>s. s = SIGINT) signals" by simp_all
  show ?case
    by (simp add: s Cons.IH [OF rest] signalHandler_def)
qed

text \<open>
  A thread that finds the run flag cleared when it polls it runs no further
  iteration: its loop returns the state as it is.
\<close>

lemma audioProcessingThread_stopped:
  "\<not> g_running (fst s) \<Longrightarrow> audioProcessingThread d outs s = s"
  by (cases outs) simp_all

lemma powerManagementThread_stopped:
  "\<not> g_running (fst s) \<Longrightarrow> powerManagementThread levels s = s"
  by (cases levels) simp_all

lemma signalHandler_clears: "\<not> g_running (signalHandler g)"
  by (simp add: signalHandler_def)

text \<open>
  C8, as the claim states it, fails for the termination signal: after a normal
  startup \<open>SIGTERM\<close> ends the process by its default action, not with exit code 0.
\<close>

theorem sigterm_is_not_exit_0:
  "main \<lparr>alsa_ok = True, i2c_ok = True, haptic_ok = True, power_ok = True,
          bluetooth_ok = True, wifi_ok = True, noise_ok = True, whisper_model = Some 1,
          keyword_ok = True, storage_ok = True\<rparr> [SIGTERM]
     = (Killed SIGTERM, 5)"
  by (simp add: main_def construct_collaborators_def and_then_def AudioCapture_ctor_def
      Display_ctor_def other_ctor_def SpeechToText_ctor_whisper)

text \<open>
  C8, amended. When some collaborator fails to initialise, \<open>main\<close> returns 1 and no
  thread is started. After a normal startup, the interrupt signal \<open>SIGINT\<close> clears
  the run flag, the five threads return and \<open>main\<close> returns 0.
\<close>

theorem main_exit_codes:
  "(\<not> all_initialized env \<longrightarrow> main env signals = (Exited 1, 0))
   \<and> (all_initialized env \<and> signals \<noteq> [] \<and> list_all (\<lambda>s. s = SIGINT) signals \<longrightarrow>
        main env signals = (Exited 0, 5))"
proof (intro conjI impI)
  assume "\<not> all_initialized env"
  from construct_fails [OF this] show "main env signals = (Exited 1, 0)"
    by (auto simp: main_def)
next
  assume a: "all_initialized env \<and> signals \<noteq> [] \<and> list_all (\<lambda>s. s = SIGINT) signals"
  then obtain stt where "construct_collaborators env = Inr stt"
    using construct_succeeds by blast
  moreover have "deliver signals initial_globals = Inr (signalHandler initial_globals)"
    using a deliver_sigint [of signals initial_globals] by simp
  ultimately show "main env signals = (Exited 0, 5)"
    by (simp add: main_def signalHandler_def)
qed

theorem main_exit_codes_witness:
  "main \<lparr>alsa_ok = True, i2c_ok = True, haptic_ok = True, power_ok = True,
          bluetooth_ok = True, wifi_ok = True, noise_ok = True, whisper_model = None,
          keyword_ok = True, storage_ok = True\<rparr> [] = (Exited 1, 0)
   \<and> main \<lparr>alsa_ok = True, i2c_ok = True, haptic_ok = True, power_ok = True,
          bluetooth_ok = True, wifi_ok = True, noise_ok = True, whisper_model = Some 1,
          keyword_ok = True, storage_ok = True\<rparr> [SIGINT] = (Exited 0, 5)"
proof -
  let ?bad = "\<lparr>alsa_ok = True, i2c_ok = True, haptic_ok = True, power_ok = True,
          bluetooth_ok = True, wifi_ok = True, noise_ok = True, whisper_model = None,
          keyword_ok = True, storage_ok = True\<rparr>"
  let ?good = "\<lparr>alsa_ok = True, i2c_ok = True, haptic_ok = True, power_ok = True,
          bluetooth_ok = True, wifi_ok = True, noise_ok = True, whisper_model = Some (1::nat),
          keyword_ok = True, storage_ok = True\<rparr>"
  have b: "\<not> all_initialized ?bad" by (simp add: all_initialized_def)
  have g: "all_initialized ?good \<and> [SIGINT] \<noteq> [] \<and> list_all (\<lambda>s. s = SIGINT) [SIGINT]"
    by (simp add: all_initialized_def)
  from main_exit_codes [of ?bad "[]"] b have 1: "main ?bad [] = (Exited 1, 0)" by blast
  from main_exit_codes [of ?good "[SIGINT]"] g have 2: "main ?good [SIGINT] = (Exited 0, 5)"
    by blast
  from 1 2 show ?thesis by (intro conjI)
qed

end
